theory Spec2Isabelle
  imports Complex_Main "HOL-Library.Word" "HOL-Library.Sublist"
begin

section \<open>JavaScript strings and the built-ins the script calls\<close>

text \<open>
  A JavaScript string is a sequence of UTF-16 code units. The regular expressions of
  \<open>main.js\<close> carry no \<open>u\<close> flag, so they work on code units as well.
\<close>

type_synonym codeunit = "16 word"
type_synonym jsstring = "codeunit list"

definition utf16 :: "string \<Rightarrow> jsstring" where
  \<comment> \<open>An ASCII literal as code units.\<close>
  "utf16 s = map (\<lambda>c. word_of_nat (of_char c)) s"

definition TSUKI :: codeunit where
  \<comment> \<open>U+6708, the character for month.\<close>
  "TSUKI = 0x6708"

definition isAsciiDigit :: "codeunit \<Rightarrow> bool" where
  \<comment> \<open>The class \<open>[0-9]\<close>.\<close>
  "isAsciiDigit c = (0x30 \<le> c \<and> c \<le> 0x39)"

definition isFullWidthDigit :: "codeunit \<Rightarrow> bool" where
  \<comment> \<open>The class of the full-width digits U+FF10 .. U+FF19.\<close>
  "isFullWidthDigit c = (0xFF10 \<le> c \<and> c \<le> 0xFF19)"

definition isMonthDigit :: "codeunit \<Rightarrow> bool" where
  \<comment> \<open>The class of pattern 1: half-width or full-width digit.\<close>
  "isMonthDigit c = (isAsciiDigit c \<or> isFullWidthDigit c)"

definition isWhiteSpace :: "codeunit \<Rightarrow> bool" where
  \<comment> \<open>The class \<open>\s\<close>: ECMAScript WhiteSpace and LineTerminator.\<close>
  "isWhiteSpace c =
     (c = 0x09 \<or> c = 0x0A \<or> c = 0x0B \<or> c = 0x0C \<or> c = 0x0D \<or> c = 0x20 \<or> c = 0xA0
      \<or> c = 0x1680 \<or> (0x2000 \<le> c \<and> c \<le> 0x200A) \<or> c = 0x2028 \<or> c = 0x2029
      \<or> c = 0x202F \<or> c = 0x205F \<or> c = 0x3000 \<or> c = 0xFEFF)"

definition digitValue :: "codeunit \<Rightarrow> int" where
  \<comment> \<open>Value of a code unit read as a digit of radix up to 16; 16 for anything else.\<close>
  "digitValue c =
     (if 0x30 \<le> c \<and> c \<le> 0x39 then uint c - 0x30
      else if 0x61 \<le> c \<and> c \<le> 0x66 then uint c - 0x61 + 10
      else if 0x41 \<le> c \<and> c \<le> 0x46 then uint c - 0x41 + 10
      else 16)"

fun digitsValue :: "int \<Rightarrow> int \<Rightarrow> jsstring \<Rightarrow> int" where
  "digitsValue radix acc [] = acc"
| "digitsValue radix acc (c # cs) = digitsValue radix (acc * radix + digitValue c) cs"

definition parseInt :: "jsstring \<Rightarrow> int option" where
  \<comment> \<open>\<open>parseInt(s)\<close> with no radix argument: leading white space is skipped, a sign is
      read, a prefix \<open>0x\<close> or \<open>0X\<close> selects radix 16, and the longest run of digits
      is the value. \<open>None\<close> is NaN. The value is the exact integer, which is what the
      JavaScript number holds below \<open>2^53\<close>; the script only parses strings of one or
      two digits and the values of the month dropdown.\<close>
  "parseInt s =
     (let s1 = dropWhile isWhiteSpace s;
          sign = (case s1 of c # _ \<Rightarrow> if c = 0x2D then - 1 else 1 | [] \<Rightarrow> (1::int));
          s2 = (case s1 of c # r \<Rightarrow> if c = 0x2D \<or> c = 0x2B then r else s1 | [] \<Rightarrow> s1);
          hex = (case s2 of a # b # _ \<Rightarrow> a = 0x30 \<and> (b = 0x78 \<or> b = 0x58) | _ \<Rightarrow> False);
          radix = (if hex then 16 else 10);
          s3 = (if hex then drop 2 s2 else s2);
          ds = takeWhile (\<lambda>c. digitValue c < radix) s3
      in if ds = [] then None else Some (sign * digitsValue radix 0 ds))"

definition lowerUnit :: "codeunit \<Rightarrow> jsstring" where
  \<comment> \<open>The lower-case form of one code unit, as far as \<open>toLowerCase\<close> below needs it.\<close>
  "lowerUnit c =
     (if 0x41 \<le> c \<and> c \<le> 0x5A then [c + 0x20]
      else if c = 0x130 then [0x69, 0x307]
      else if c = 0x212A then [0x6B]
      else [c])"

definition toLowerCase :: "jsstring \<Rightarrow> jsstring" where
  \<comment> \<open>\<open>String.prototype.toLowerCase\<close>, exact on every code unit whose lower-case form
      contains an ASCII code unit: the letters A to Z, U+0130 (i followed by U+0307)
      and U+212A (k). Every other code unit stands for itself here: its lower-case form
      has no ASCII code unit, and the script only searches the result for ASCII names.\<close>
  "toLowerCase s = concat (map lowerUnit s)"

definition includes_js :: "jsstring \<Rightarrow> jsstring \<Rightarrow> bool" where
  \<comment> \<open>\<open>s.includes(n)\<close>: \<open>n\<close> occurs in \<open>s\<close> as a contiguous run.\<close>
  "includes_js s n = sublist n s"

section \<open>Month detection from the file name\<close>

text \<open>
  \<open>detectMonthFromFilename\<close> tries three patterns in turn. Pattern 1 is the regular
  expression \<open>/([0-9D]{1,2})\s*M/\<close>, where \<open>D\<close> stands for the range of the full-width
  digits U+FF10 to U+FF19 and \<open>M\<close> for the month character U+6708. Pattern 2 is
  \<open>/[_\-]([0-9]{2})[_\-\.]/\<close>. Pattern 3 is a table of English month names. Neither
  expression has the \<open>g\<close> flag, so \<open>match\<close> gives the leftmost match and its capture
  group.
\<close>

definition spacesThenMonth :: "jsstring \<Rightarrow> bool" where
  \<comment> \<open>\<open>\s*\<close> followed by the month character, at the start of \<open>s\<close>. The greedy
      star takes every white-space unit; backing off would leave a white-space unit
      where the month character is required, so no shorter run can match.\<close>
  "spacesThenMonth s = (case dropWhile isWhiteSpace s of [] \<Rightarrow> False | c # _ \<Rightarrow> c = TSUKI)"

fun monthPatternAt :: "jsstring \<Rightarrow> jsstring option" where
  \<comment> \<open>One attempt of pattern 1 at the start of the string; the result is capture group 1.
      The quantifier \<open>{1,2}\<close> is greedy: two digits are tried before one.\<close>
  "monthPatternAt (d1 # d2 # rest) =
     (if isMonthDigit d1 then
        (if isMonthDigit d2 \<and> spacesThenMonth rest then Some [d1, d2]
         else if spacesThenMonth (d2 # rest) then Some [d1]
         else None)
      else None)"
| "monthPatternAt _ = None"

fun matchMonthPattern :: "jsstring \<Rightarrow> jsstring option" where
  \<comment> \<open>\<open>filename.match(...)\<close> for pattern 1: the attempt is made at every index from
      the left and the first success is the match. \<open>None\<close> is null.\<close>
  "matchMonthPattern [] = None"
| "matchMonthPattern (c # cs) =
     (case monthPatternAt (c # cs) of Some g \<Rightarrow> Some g | None \<Rightarrow> matchMonthPattern cs)"

definition isLeadDelimiter :: "codeunit \<Rightarrow> bool" where
  \<comment> \<open>The class \<open>[_\-]\<close>.\<close>
  "isLeadDelimiter c = (c = 0x5F \<or> c = 0x2D)"

definition isTrailDelimiter :: "codeunit \<Rightarrow> bool" where
  \<comment> \<open>The class \<open>[_\-\.]\<close>.\<close>
  "isTrailDelimiter c = (c = 0x5F \<or> c = 0x2D \<or> c = 0x2E)"

fun delimitedPatternAt :: "jsstring \<Rightarrow> jsstring option" where
  \<comment> \<open>One attempt of pattern 2 at the start of the string; capture group 1.\<close>
  "delimitedPatternAt (a # b # c # d # rest) =
     (if isLeadDelimiter a \<and> isAsciiDigit b \<and> isAsciiDigit c \<and> isTrailDelimiter d
      then Some [b, c] else None)"
| "delimitedPatternAt _ = None"

fun matchDelimitedPattern :: "jsstring \<Rightarrow> jsstring option" where
  \<comment> \<open>\<open>filename.match(...)\<close> for pattern 2, from the left as for pattern 1.\<close>
  "matchDelimitedPattern [] = None"
| "matchDelimitedPattern (c # cs) =
     (case delimitedPatternAt (c # cs) of Some g \<Rightarrow> Some g | None \<Rightarrow> matchDelimitedPattern cs)"

definition toHalfWidth :: "jsstring \<Rightarrow> jsstring" where
  \<comment> \<open>The \<open>replace\<close> call of pattern 1: every full-width digit becomes the code unit
      \<open>0xFEE0\<close> below it.\<close>
  "toHalfWidth s = map (\<lambda>c. if isFullWidthDigit c then c - 0xFEE0 else c) s"

definition invoiceOffset :: "int option \<Rightarrow> int option" where
  \<comment> \<open>The three statements after \<open>parseInt\<close> in patterns 1 and 2. \<open>Some m\<close>: the
      function returns \<open>m\<close>; \<open>None\<close>: control falls through to the next pattern.
      With NaN every comparison is false.\<close>
  "invoiceOffset parsed =
     (case parsed of
        None \<Rightarrow> None
      | Some n \<Rightarrow>
          (let month = n - 1;
               month = (if month = 0 then 12 else month)
           in if 1 \<le> month \<and> month \<le> 12 then Some month else None))"

definition monthNames :: "(jsstring \<times> int) list" where
  \<comment> \<open>The object literal, in the order \<open>Object.entries\<close> lists its keys: insertion order.\<close>
  "monthNames =
     [(utf16 ''jan'', 1), (utf16 ''january'', 1),
      (utf16 ''feb'', 2), (utf16 ''february'', 2),
      (utf16 ''mar'', 3), (utf16 ''march'', 3),
      (utf16 ''apr'', 4), (utf16 ''april'', 4),
      (utf16 ''may'', 5),
      (utf16 ''jun'', 6), (utf16 ''june'', 6),
      (utf16 ''jul'', 7), (utf16 ''july'', 7),
      (utf16 ''aug'', 8), (utf16 ''august'', 8),
      (utf16 ''sep'', 9), (utf16 ''september'', 9),
      (utf16 ''oct'', 10), (utf16 ''october'', 10),
      (utf16 ''nov'', 11), (utf16 ''november'', 11),
      (utf16 ''dec'', 12), (utf16 ''december'', 12)]"

fun lookupMonthName :: "(jsstring \<times> int) list \<Rightarrow> jsstring \<Rightarrow> int option" where
  \<comment> \<open>The \<open>for ... of\<close> loop of pattern 3 over the remaining entries.\<close>
  "lookupMonthName [] lowerFilename = None"
| "lookupMonthName ((name, month) # rest) lowerFilename =
     (if includes_js lowerFilename name then Some month else lookupMonthName rest lowerFilename)"

definition pattern1 :: "jsstring \<Rightarrow> int option" where
  \<comment> \<open>The first block: \<open>Some m\<close> when it returns \<open>m\<close>, \<open>None\<close> when it falls through.\<close>
  "pattern1 filename =
     (case matchMonthPattern filename of
        None \<Rightarrow> None
      | Some monthStr \<Rightarrow> invoiceOffset (parseInt (toHalfWidth monthStr)))"

definition pattern2 :: "jsstring \<Rightarrow> int option" where
  \<comment> \<open>The second block, in the same way.\<close>
  "pattern2 filename =
     (case matchDelimitedPattern filename of
        None \<Rightarrow> None
      | Some g \<Rightarrow> invoiceOffset (parseInt g))"

definition pattern3 :: "jsstring \<Rightarrow> int option" where
  \<comment> \<open>The third block; \<open>None\<close> when the loop ends with no name found.\<close>
  "pattern3 filename = lookupMonthName monthNames (toLowerCase filename)"

definition detectMonthFromFilename :: "jsstring \<Rightarrow> int option" where
  \<comment> \<open>The three blocks in the order of the source, then \<open>return null\<close>: \<open>None\<close>.\<close>
  "detectMonthFromFilename filename =
     (case pattern1 filename of
        Some month \<Rightarrow> Some month
      | None \<Rightarrow>
          (case pattern2 filename of
             Some month \<Rightarrow> Some month
           | None \<Rightarrow> pattern3 filename))"

section \<open>The list of uploaded files\<close>

record jsfile =
  name :: jsstring
  content :: "8 word list"

text \<open>
  A JavaScript number that is an integer or NaN is an \<open>int option\<close>, \<open>None\<close> being NaN,
  as \<open>parseInt\<close> returns it. \<open>detectedMonth\<close> is a month or null, \<open>None\<close> being null.
\<close>

record uploadedFile =
  file_js :: jsfile
  detectedMonth :: "int option"
  selectedMonth :: "int option"

definition newEntry :: "jsfile \<Rightarrow> uploadedFile" where
  \<comment> \<open>The object pushed for one file; \<open>detectedMonth || 1\<close> is 1 for null and for 0.\<close>
  "newEntry f =
     (let detected = detectMonthFromFilename (name f)
      in \<lparr> file_js = f,
           detectedMonth = detected,
           selectedMonth = (case detected of None \<Rightarrow> Some 1
                            | Some m \<Rightarrow> if m = 0 then Some 1 else Some m) \<rparr>)"

definition addFiles :: "jsfile list \<Rightarrow> uploadedFile list \<Rightarrow> uploadedFile list" where
  \<comment> \<open>\<open>files.forEach(file => uploadedFiles.push(...))\<close>; the two calls after it only
      redraw the page.\<close>
  "addFiles files uploadedFiles = uploadedFiles @ map newEntry files"

definition removeFile :: "int \<Rightarrow> uploadedFile list \<Rightarrow> uploadedFile list" where
  \<comment> \<open>\<open>uploadedFiles.splice(index, 1)\<close>: a negative index counts from the end, and an
      index past the end removes nothing.\<close>
  "removeFile index uploadedFiles =
     (let len = int (length uploadedFiles);
          start = (if index < 0 then max (len + index) 0 else min index len)
      in take (nat start) uploadedFiles @ drop (nat start + 1) uploadedFiles)"

datatype jserror = TypeError

definition updateFileMonth :: "int \<Rightarrow> jsstring \<Rightarrow> uploadedFile list \<Rightarrow> jserror + uploadedFile list" where
  \<comment> \<open>\<open>uploadedFiles[index].selectedMonth = parseInt(month)\<close>; where the list has no
      entry at \<open>index\<close> the assignment throws and the list stays as it is.\<close>
  "updateFileMonth index month uploadedFiles =
     (if 0 \<le> index \<and> index < int (length uploadedFiles)
      then Inr (uploadedFiles[nat index :=
                  (uploadedFiles ! nat index)\<lparr> selectedMonth := parseInt month \<rparr>])
      else Inl TypeError)"

definition handleReset :: "uploadedFile list \<Rightarrow> uploadedFile list" where
  "handleReset uploadedFiles = []"

definition monthOptionValues :: "jsstring list" where
  \<comment> \<open>The \<open>value\<close> attributes of the twelve options that \<open>renderFileList\<close> writes.\<close>
  "monthOptionValues =
     [utf16 ''1'', utf16 ''2'', utf16 ''3'', utf16 ''4'', utf16 ''5'', utf16 ''6'',
      utf16 ''7'', utf16 ''8'', utf16 ''9'', utf16 ''10'', utf16 ''11'', utf16 ''12'']"

datatype listEvent =
    AddFiles "jsfile list"
  | RemoveFile int
  | UpdateFileMonth int jsstring
  | HandleReset

fun listStep :: "uploadedFile list \<Rightarrow> listEvent \<Rightarrow> uploadedFile list" where
  \<comment> \<open>One handler run on the global list; a handler that throws leaves the list as it was.\<close>
  "listStep uploadedFiles (AddFiles files) = addFiles files uploadedFiles"
| "listStep uploadedFiles (RemoveFile index) = removeFile index uploadedFiles"
| "listStep uploadedFiles (UpdateFileMonth index month) =
     (case updateFileMonth index month uploadedFiles of
        Inl e \<Rightarrow> uploadedFiles
      | Inr updated \<Rightarrow> updated)"
| "listStep uploadedFiles HandleReset = handleReset uploadedFiles"

fun fromDropdown :: "listEvent \<Rightarrow> bool" where
  \<comment> \<open>The month of an update is the value of one of the twelve options.\<close>
  "fromDropdown (UpdateFileMonth index month) = (month \<in> set monthOptionValues)"
| "fromDropdown _ = True"

definition monthInRange :: "uploadedFile \<Rightarrow> bool" where
  "monthInRange u = (case selectedMonth u of None \<Rightarrow> False | Some m \<Rightarrow> 1 \<le> m \<and> m \<le> 12)"

section \<open>Rendering the response\<close>

record resultItem =
  filename :: jsstring
  status :: jsstring
  fields_js :: "(jsstring \<times> jsstring) list option"
  ocr_text :: "jsstring option"
  ocr_confidence :: "rat option"

text \<open>
  \<open>fields_js\<close> lists the keys of the object in the order of \<open>Object.keys\<close>, each with its
  value as the string that \<open>+ ' kWh'\<close> makes of it; \<open>None\<close> is an absent or null property.
  The rows of the table body are kept by what they show.
\<close>

datatype monthCell =
    KeyMonth jsstring
  | SelectedMonth int
  | NoMonth

datatype kwhCell =
    Kwh jsstring
  | NotDetected
  | ErrorText

datatype badge =
    Completed
  | Failed

datatype tableRow =
    Row monthCell kwhCell badge
  | OcrDetails rat jsstring
  | OcrUnavailable

definition STATUS_DONE :: jsstring where
  \<comment> \<open>The status string for a finished file, U+5B8C U+4E86.\<close>
  "STATUS_DONE = [0x5B8C, 0x4E86]"

definition STATUS_NO_KWH :: jsstring where
  \<comment> \<open>The status string \<open>kWh\<close> followed by U+672A U+691C U+51FA: no reading found.\<close>
  "STATUS_NO_KWH = utf16 ''kWh'' @ [0x672A, 0x691C, 0x51FA]"

definition isJapanese :: "codeunit \<Rightarrow> bool" where
  "isJapanese c =
     ((0x3040 \<le> c \<and> c \<le> 0x309F) \<or> (0x30A0 \<le> c \<and> c \<le> 0x30FF) \<or> (0x4E00 \<le> c \<and> c \<le> 0x9FFF))"

definition shouldShowOcr :: "resultItem \<Rightarrow> bool" where
  \<comment> \<open>The numbers are compared exactly: for a confidence that is a double and a text of
      any length a string can have, the comparisons with 0.8 and 0.2 come out the same.\<close>
  "shouldShowOcr result =
     (let confidence = (case ocr_confidence result of None \<Rightarrow> 0 | Some c \<Rightarrow> c)
      in case ocr_text result of
           None \<Rightarrow> False
         | Some text \<Rightarrow>
             if 4 / 5 \<le> confidence \<and> text \<noteq> [] then
               (let japaneseChars = filter isJapanese text;
                    totalChars = length (filter (\<lambda>c. \<not> isWhiteSpace c) text)
                in 0 < totalChars \<and> totalChars \<le> 5 * length japaneseChars)
             else False)"

definition escapeHtml :: "jsstring \<Rightarrow> jsstring" where
  \<comment> \<open>The three \<open>replace\<close> calls, ampersand first.\<close>
  "escapeHtml text =
     concat (map (\<lambda>c. if c = 0x26 then utf16 ''&amp;''
                       else if c = 0x3C then utf16 ''&lt;''
                       else if c = 0x3E then utf16 ''&gt;''
                       else [c]) text)"

definition ocrDetailsHtml :: "resultItem \<Rightarrow> tableRow option" where
  \<comment> \<open>\<open>None\<close> is the empty string, which is falsy.\<close>
  "ocrDetailsHtml result =
     (case ocr_text result of
        None \<Rightarrow> None
      | Some text \<Rightarrow>
          if shouldShowOcr result then
            Some (OcrDetails (case ocr_confidence result of None \<Rightarrow> 0 | Some c \<Rightarrow> c)
                    (escapeHtml text))
          else if text \<noteq> [] then Some OcrUnavailable
          else None)"

fun replaceFirst :: "jsstring \<Rightarrow> jsstring \<Rightarrow> jsstring \<Rightarrow> jsstring" where
  \<comment> \<open>\<open>s.replace(pat, rep)\<close> with a string pattern: the first occurrence only.\<close>
  "replaceFirst pat rep [] = (if pat = [] then rep else [])"
| "replaceFirst pat rep (c # cs) =
     (if prefix pat (c # cs) then rep @ drop (length pat) (c # cs)
      else c # replaceFirst pat rep cs)"

definition compareKeys :: "jsstring \<Rightarrow> jsstring \<Rightarrow> int" where
  \<comment> \<open>The comparator; a NaN difference counts as 0.\<close>
  "compareKeys a b =
     (case (parseInt (replaceFirst [0x6708, 0x5024] [] a),
            parseInt (replaceFirst [0x6708, 0x5024] [] b)) of
        (Some monthA, Some monthB) \<Rightarrow> monthA - monthB
      | _ \<Rightarrow> 0)"

fun insertKey :: "jsstring \<Rightarrow> jsstring list \<Rightarrow> jsstring list" where
  "insertKey k [] = [k]"
| "insertKey k (x # xs) = (if compareKeys x k \<le> 0 then x # insertKey k xs else k # x # xs)"

definition sortKeys :: "jsstring list \<Rightarrow> jsstring list" where
  \<comment> \<open>\<open>Array.prototype.sort\<close> with the comparator, as a stable insertion sort. Where a
      key has no number the comparator is not consistent and the engine may order the keys
      otherwise; the keys stay the same.\<close>
  "sortKeys ks = foldl (\<lambda>sorted k. insertKey k sorted) [] ks"

definition truthy :: "int option option \<Rightarrow> bool" where
  \<comment> \<open>The argument \<open>selectedMonth\<close> in a condition: null, NaN and 0 are falsy.\<close>
  "truthy selected =
     (case selected of Some (Some m) \<Rightarrow> m \<noteq> 0 | _ \<Rightarrow> False)"

definition monthOf :: "int option option \<Rightarrow> int" where
  "monthOf selected = (case selected of Some (Some m) \<Rightarrow> m | _ \<Rightarrow> 0)"

definition addResultRow :: "tableRow list \<Rightarrow> resultItem \<Rightarrow> int option option \<Rightarrow> tableRow list" where
  "addResultRow tbody result selected =
     (let details = ocrDetailsHtml result;
          keys = (case fields_js result of None \<Rightarrow> [] | Some fs \<Rightarrow> map fst fs)
      in if keys \<noteq> [] then
           (let monthKeys = sortKeys (filter (\<lambda>key. key \<noteq> utf16 ''ocr_confidence'') keys)
            in if monthKeys \<noteq> [] then
                 tbody
                 @ map (\<lambda>key. Row (KeyMonth (replaceFirst [0x5024] [] key))
                          (case map_of (case fields_js result of None \<Rightarrow> [] | Some fs \<Rightarrow> fs) key of
                             None \<Rightarrow> Kwh (utf16 ''undefined'')
                           | Some v \<Rightarrow> Kwh v)
                          Completed) monthKeys
                 @ (case details of None \<Rightarrow> [] | Some r \<Rightarrow> [r])
               else if truthy selected then
                 tbody @ [Row (SelectedMonth (monthOf selected)) NotDetected Completed]
                 @ (case details of None \<Rightarrow> [] | Some r \<Rightarrow> [r])
               else tbody)
         else if truthy selected then
           tbody @ [Row (SelectedMonth (monthOf selected)) ErrorText Failed]
         else tbody)"

definition addErrorRow :: "tableRow list \<Rightarrow> jsstring \<Rightarrow> tableRow list" where
  "addErrorRow tbody fname = tbody @ [Row NoMonth ErrorText Failed]"

definition renderItem :: "uploadedFile list \<Rightarrow> tableRow list \<Rightarrow> resultItem \<Rightarrow> tableRow list" where
  \<comment> \<open>The body of the \<open>forEach\<close> over \<open>result.results\<close>.\<close>
  "renderItem uploadedFiles tbody item =
     (let uploadedFile = find (\<lambda>f. name (file_js f) = filename item) uploadedFiles;
          selected = (case uploadedFile of None \<Rightarrow> None | Some u \<Rightarrow> Some (selectedMonth u))
      in if status item = STATUS_DONE \<or> status item = STATUS_NO_KWH
         then addResultRow tbody item selected
         else addErrorRow tbody (filename item))"

definition renderResults :: "uploadedFile list \<Rightarrow> resultItem list option \<Rightarrow> tableRow list" where
  \<comment> \<open>The table body is emptied before the request; \<open>None\<close> is a response with no
      \<open>results\<close> property.\<close>
  "renderResults uploadedFiles results =
     (case results of None \<Rightarrow> [] | Some items \<Rightarrow> foldl (renderItem uploadedFiles) [] items)"

definition failureStatus :: "resultItem \<Rightarrow> bool" where
  \<comment> \<open>The status of the item sends it to \<open>addErrorRow\<close>.\<close>
  "failureStatus item = (status item \<noteq> STATUS_DONE \<and> status item \<noteq> STATUS_NO_KWH)"

definition errorRows :: "tableRow list \<Rightarrow> nat" where
  \<comment> \<open>The number of rows that \<open>addErrorRow\<close> writes.\<close>
  "errorRows rows = length (filter (\<lambda>r. r = Row NoMonth ErrorText Failed) rows)"

section \<open>Classes of code units used in the proofs\<close>

definition isAsciiLower :: "codeunit \<Rightarrow> bool" where
  "isAsciiLower c = (0x61 \<le> c \<and> c \<le> 0x7A)"

definition tokenUnit :: "codeunit \<Rightarrow> bool" where
  \<comment> \<open>A code unit that can stand in a match of pattern 2.\<close>
  "tokenUnit c = (isAsciiDigit c \<or> isLeadDelimiter c \<or> isTrailDelimiter c)"

section \<open>What a file name contains, in the words of the specification\<close>

text \<open>
  These three predicates say what the specification means by a file name that a heuristic
  matches. They are compared with the matchers of the script below.
\<close>

definition hasDigitsBeforeMonth :: "jsstring \<Rightarrow> bool" where
  \<comment> \<open>A digit, then white space or nothing, then the month character.\<close>
  "hasDigitsBeforeMonth s =
     (\<exists>pre d ws post. s = pre @ d # ws @ TSUKI # post \<and> isMonthDigit d
        \<and> (\<forall>c\<in>set ws. isWhiteSpace c))"

definition hasDelimitedToken :: "jsstring \<Rightarrow> bool" where
  \<comment> \<open>Two digits between a delimiter on the left and a delimiter on the right.\<close>
  "hasDelimitedToken s =
     (\<exists>pre a b c d post. s = pre @ a # b # c # d # post \<and> isLeadDelimiter a
        \<and> isAsciiDigit b \<and> isAsciiDigit c \<and> isTrailDelimiter d)"

definition hasMonthName :: "jsstring \<Rightarrow> bool" where
  \<comment> \<open>A name of the table occurs in the file name, whatever the case of its letters.\<close>
  "hasMonthName s = (\<exists>e\<in>set monthNames. includes_js (toLowerCase s) (fst e))"


section \<open>Helper facts about the detector\<close>

lemma invoiceOffset_accept:
  "1 \<le> n \<Longrightarrow> n \<le> 12 \<Longrightarrow> invoiceOffset (Some n) = Some (if n = 1 then 12 else n - 1)"
  by (simp add: invoiceOffset_def Let_def)

lemma invoiceOffset_range:
  "invoiceOffset p = Some m \<Longrightarrow> 1 \<le> m \<and> m \<le> 12"
  by (auto simp: invoiceOffset_def Let_def split: option.splits if_splits)

lemma invoiceOffset_Some_iff:
  "invoiceOffset (Some n) = Some m \<longleftrightarrow> (1 \<le> n \<and> n \<le> 13 \<and> m = (if n = 1 then 12 else n - 1))"
  by (auto simp: invoiceOffset_def Let_def split: option.splits if_splits)

lemma lookupMonthName_in_table:
  "lookupMonthName t l = Some m \<Longrightarrow> m \<in> snd ` set t"
  by (induction t l rule: lookupMonthName.induct) (auto split: if_splits)

lemma monthNames_range: "m \<in> snd ` set monthNames \<Longrightarrow> 1 \<le> m \<and> m \<le> 12"
  by (auto simp: monthNames_def)

lemma lookupMonthName_first:
  "i < length t \<Longrightarrow> includes_js l (fst (t ! i)) \<Longrightarrow>
   \<forall>j<i. \<not> includes_js l (fst (t ! j)) \<Longrightarrow> lookupMonthName t l = Some (snd (t ! i))"
proof (induction t l arbitrary: i rule: lookupMonthName.induct)
  case (1 l)
  then show ?case by simp
next
  case (2 nm mo rest l)
  show ?case
  proof (cases i)
    case 0
    with 2 show ?thesis by simp
  next
    case (Suc k)
    with 2 have "\<not> includes_js l nm" by fastforce
    moreover have "lookupMonthName rest l = Some (snd (rest ! k))"
      using 2 Suc by (intro 2) auto
    ultimately show ?thesis using Suc by simp
  qed
qed

lemma lookupMonthName_None:
  "lookupMonthName t l = None \<longleftrightarrow> (\<forall>e\<in>set t. \<not> includes_js l (fst e))"
  by (induction t l rule: lookupMonthName.induct) auto

lemma pattern1_range: "pattern1 f = Some m \<Longrightarrow> 1 \<le> m \<and> m \<le> 12"
  by (auto simp: pattern1_def split: option.splits dest: invoiceOffset_range)

lemma pattern2_range: "pattern2 f = Some m \<Longrightarrow> 1 \<le> m \<and> m \<le> 12"
  by (auto simp: pattern2_def split: option.splits dest: invoiceOffset_range)

lemma pattern3_range: "pattern3 f = Some m \<Longrightarrow> 1 \<le> m \<and> m \<le> 12"
  unfolding pattern3_def using lookupMonthName_in_table monthNames_range by blast

subsection \<open>Classes of code units\<close>

lemma TSUKI_plain:
  "\<not> isWhiteSpace TSUKI" "\<not> isMonthDigit TSUKI" "\<not> isAsciiDigit TSUKI"
  "\<not> isLeadDelimiter TSUKI" "\<not> isTrailDelimiter TSUKI" "\<not> isAsciiLower TSUKI"
  "lowerUnit TSUKI = [TSUKI]"
  by (simp_all add: TSUKI_def isWhiteSpace_def isMonthDigit_def isAsciiDigit_def
      isFullWidthDigit_def isLeadDelimiter_def isTrailDelimiter_def isAsciiLower_def lowerUnit_def)

lemma whiteSpace_plain:
  assumes "isWhiteSpace c"
  shows "\<not> isMonthDigit c" "\<not> isAsciiDigit c" "\<not> isLeadDelimiter c"
    "\<not> isTrailDelimiter c" "\<not> isAsciiLower c" "lowerUnit c = [c]" "c \<noteq> TSUKI"
  using assms
  by (auto simp: TSUKI_def isWhiteSpace_def isMonthDigit_def isAsciiDigit_def
      isFullWidthDigit_def isLeadDelimiter_def isTrailDelimiter_def isAsciiLower_def lowerUnit_def
      word_le_nat_alt)


subsection \<open>Pattern 1 and white space before the month character\<close>

lemma spacesThenMonth_spaces:
  "\<forall>c\<in>set ws. isWhiteSpace c \<Longrightarrow> spacesThenMonth (ws @ TSUKI # post)"
  by (simp add: spacesThenMonth_def dropWhile_append2 TSUKI_plain)

lemma spacesThenMonth_insert:
  "\<forall>c\<in>set ws. isWhiteSpace c \<Longrightarrow>
   spacesThenMonth (xs @ ws @ TSUKI # post) = spacesThenMonth (xs @ TSUKI # post)"
proof (induction xs)
  case Nil
  then show ?case
    using spacesThenMonth_spaces [of ws post] spacesThenMonth_spaces [of "[]" post] by simp
next
  case (Cons x xs)
  then show ?case by (simp add: spacesThenMonth_def)
qed

lemma monthPatternAt_no_digit: "\<not> isMonthDigit c \<Longrightarrow> monthPatternAt (c # cs) = None"
  by (cases cs) simp_all

lemma monthPatternAt_one_digit:
  assumes "isMonthDigit d" "\<forall>c\<in>set ws. isWhiteSpace c"
  shows "monthPatternAt (d # ws @ TSUKI # post) = Some [d]"
proof (cases ws)
  case Nil
  then show ?thesis
    using assms spacesThenMonth_spaces [of "[]" post] by (simp add: TSUKI_plain)
next
  case (Cons w ws')
  then have "\<not> isMonthDigit w" using assms whiteSpace_plain(1) by simp
  moreover have "spacesThenMonth (w # ws' @ TSUKI # post)"
    using spacesThenMonth_spaces [of ws post] assms Cons by simp
  ultimately show ?thesis using assms Cons by simp
qed

lemma monthPatternAt_insert:
  assumes "\<forall>c\<in>set ws. isWhiteSpace c" "xs \<noteq> []"
  shows "monthPatternAt (xs @ ws @ TSUKI # post) = monthPatternAt (xs @ TSUKI # post)"
proof (cases xs)
  case Nil
  with assms show ?thesis by simp
next
  case (Cons x xs')
  show ?thesis
  proof (cases "isMonthDigit x")
    case False
    then show ?thesis using Cons by (simp add: monthPatternAt_no_digit)
  next
    case True
    show ?thesis
    proof (cases xs')
      case Nil
      then show ?thesis
        using Cons True assms monthPatternAt_one_digit [of x ws post]
          monthPatternAt_one_digit [of x "[]" post] by simp
    next
      case (Cons y ys)
      then show ?thesis
        using \<open>xs = x # xs'\<close> spacesThenMonth_insert [OF assms(1), of ys post]
          spacesThenMonth_insert [OF assms(1), of "y # ys" post] by simp
    qed
  qed
qed

lemma matchMonthPattern_skip_spaces:
  "\<forall>c\<in>set ws. isWhiteSpace c \<Longrightarrow> matchMonthPattern (ws @ s) = matchMonthPattern s"
  by (induction ws) (simp_all add: monthPatternAt_no_digit whiteSpace_plain(1))

lemma matchMonthPattern_insert:
  assumes "\<forall>c\<in>set ws. isWhiteSpace c"
  shows "matchMonthPattern (xs @ ws @ TSUKI # post) = matchMonthPattern (xs @ TSUKI # post)"
proof (induction xs)
  case Nil
  then show ?case using matchMonthPattern_skip_spaces [OF assms] by simp
next
  case (Cons x xs)
  have "monthPatternAt ((x # xs) @ ws @ TSUKI # post) = monthPatternAt ((x # xs) @ TSUKI # post)"
    by (rule monthPatternAt_insert [OF assms]) simp
  with Cons show ?case by (simp split: option.splits)
qed

lemma matchMonthPattern_skip_no_digit:
  "\<forall>c\<in>set pre. \<not> isMonthDigit c \<Longrightarrow> matchMonthPattern (pre @ s) = matchMonthPattern s"
  by (induction pre) (simp_all add: monthPatternAt_no_digit)

lemma matchMonthPattern_first_digits:
  assumes "\<forall>c\<in>set pre. \<not> isMonthDigit c" "ds \<noteq> []" "length ds \<le> 2"
    and "\<forall>c\<in>set ds. isMonthDigit c" "\<forall>c\<in>set ws. isWhiteSpace c"
  shows "matchMonthPattern (pre @ ds @ ws @ TSUKI # post) = Some ds"
proof -
  consider d where "ds = [d]" | d1 d2 where "ds = [d1, d2]"
    using assms(2,3) by (cases ds; cases "tl ds") auto
  then have "matchMonthPattern (ds @ ws @ TSUKI # post) = Some ds"
  proof cases
    case 1
    then show ?thesis
      using assms(4,5) monthPatternAt_one_digit [of d ws post] by simp
  next
    case 2
    then show ?thesis
      using assms(4,5) spacesThenMonth_spaces [of ws post] by simp
  qed
  then show ?thesis
    using matchMonthPattern_skip_no_digit [OF assms(1)] by simp
qed

lemma matchMonthPattern_found:
  "monthPatternAt s \<noteq> None \<Longrightarrow> matchMonthPattern (pre @ s) \<noteq> None"
proof (induction pre)
  case Nil
  then show ?case by (cases s) (auto split: option.splits)
next
  case (Cons a pre)
  then show ?case by (auto split: option.splits)
qed

subsection \<open>Pattern 2 and units that belong to no delimited token\<close>


lemma delimitedPatternAt_None:
  "\<not> isLeadDelimiter a \<Longrightarrow> delimitedPatternAt (a # r) = None"
  "\<not> isAsciiDigit b \<Longrightarrow> delimitedPatternAt (a # b # r) = None"
  "\<not> isAsciiDigit c \<Longrightarrow> delimitedPatternAt (a # b # c # r) = None"
  "\<not> isTrailDelimiter d \<Longrightarrow> delimitedPatternAt (a # b # c # d # r) = None"
proof -
  show "\<not> isLeadDelimiter a \<Longrightarrow> delimitedPatternAt (a # r) = None"
    by (cases "a # r" rule: delimitedPatternAt.cases) auto
  show "\<not> isAsciiDigit b \<Longrightarrow> delimitedPatternAt (a # b # r) = None"
    by (cases "a # b # r" rule: delimitedPatternAt.cases) auto
  show "\<not> isAsciiDigit c \<Longrightarrow> delimitedPatternAt (a # b # c # r) = None"
    by (cases "a # b # c # r" rule: delimitedPatternAt.cases) auto
  show "\<not> isTrailDelimiter d \<Longrightarrow> delimitedPatternAt (a # b # c # d # r) = None"
    by simp
qed

lemma delimitedPatternAt_cut:
  assumes "\<not> tokenUnit u" "\<not> tokenUnit u'"
  shows "delimitedPatternAt (xs @ u # r) = delimitedPatternAt (xs @ u' # r')"
proof -
  consider "xs = []" | a where "xs = [a]" | a b where "xs = [a, b]"
    | a b c where "xs = [a, b, c]" | a b c d ys where "xs = a # b # c # d # ys"
    by (metis list.exhaust)
  then show ?thesis
  proof cases
    case 1
    then show ?thesis using assms by (simp add: tokenUnit_def delimitedPatternAt_None(1))
  next
    case 2
    then show ?thesis using assms by (simp add: tokenUnit_def delimitedPatternAt_None(2))
  next
    case 3
    then show ?thesis using assms by (simp add: tokenUnit_def delimitedPatternAt_None(3))
  next
    case 4
    then show ?thesis using assms by (simp add: tokenUnit_def)
  next
    case 5
    then show ?thesis by simp
  qed
qed

lemma matchDelimitedPattern_skip:
  "\<forall>c\<in>set ws. \<not> tokenUnit c \<Longrightarrow> matchDelimitedPattern (ws @ s) = matchDelimitedPattern s"
  by (induction ws) (simp_all add: tokenUnit_def delimitedPatternAt_None(1))

lemma matchDelimitedPattern_cut:
  assumes "\<not> tokenUnit u" "\<not> tokenUnit u'"
    and "matchDelimitedPattern r = matchDelimitedPattern r'"
  shows "matchDelimitedPattern (xs @ u # r) = matchDelimitedPattern (xs @ u' # r')"
proof (induction xs)
  case Nil
  then show ?case
    using assms by (simp add: tokenUnit_def delimitedPatternAt_None(1))
next
  case (Cons x xs)
  have "delimitedPatternAt ((x # xs) @ u # r) = delimitedPatternAt ((x # xs) @ u' # r')"
    by (rule delimitedPatternAt_cut [OF assms(1,2)])
  with Cons show ?case by (simp split: option.splits)
qed

lemma tokenUnit_plain: "\<not> tokenUnit TSUKI" "isWhiteSpace c \<Longrightarrow> \<not> tokenUnit c"
  by (simp_all add: tokenUnit_def TSUKI_plain whiteSpace_plain)

lemma matchDelimitedPattern_insert:
  assumes "\<forall>c\<in>set ws. isWhiteSpace c"
  shows "matchDelimitedPattern (xs @ ws @ TSUKI # post) = matchDelimitedPattern (xs @ TSUKI # post)"
proof (cases ws)
  case Nil
  then show ?thesis by simp
next
  case (Cons w ws')
  have "matchDelimitedPattern (ws' @ TSUKI # post) = matchDelimitedPattern (TSUKI # post)"
    by (rule matchDelimitedPattern_skip) (use assms Cons tokenUnit_plain in auto)
  also have "\<dots> = matchDelimitedPattern post"
    using matchDelimitedPattern_skip [of "[TSUKI]" post] tokenUnit_plain(1) by simp
  finally have "matchDelimitedPattern (xs @ w # ws' @ TSUKI # post)
      = matchDelimitedPattern (xs @ TSUKI # post)"
    using assms Cons tokenUnit_plain by (intro matchDelimitedPattern_cut) auto
  then show ?thesis using Cons by simp
qed

subsection \<open>Pattern 3 and units that are no lower-case letter\<close>

lemma prefix_cut:
  "\<forall>c\<in>set n. isAsciiLower c \<Longrightarrow> \<not> isAsciiLower b \<Longrightarrow> prefix n (A @ b # R) = prefix n A"
proof (induction A arbitrary: n)
  case Nil
  then show ?case by (cases n) auto
next
  case (Cons a A)
  then show ?case by (cases n) auto
qed

lemma includes_cut:
  assumes "n \<noteq> []" "\<forall>c\<in>set n. isAsciiLower c" "\<not> isAsciiLower b"
  shows "includes_js (A @ b # R) n \<longleftrightarrow> includes_js A n \<or> includes_js R n"
proof (induction A)
  case Nil
  have "\<not> prefix n (b # R)" using assms by (cases n) auto
  then show ?case using assms(1) by (simp add: includes_js_def sublist_Cons_right)
next
  case (Cons a A)
  have "prefix n ((a # A) @ b # R) = prefix n (a # A)"
    by (rule prefix_cut [OF assms(2,3)])
  with Cons show ?case by (auto simp: includes_js_def sublist_Cons_right)
qed

lemma includes_skip:
  assumes "n \<noteq> []" "\<forall>c\<in>set n. isAsciiLower c" "\<forall>c\<in>set ws. \<not> isAsciiLower c"
  shows "includes_js (ws @ R) n = includes_js R n"
  using assms(3)
proof (induction ws)
  case Nil
  then show ?case by simp
next
  case (Cons w ws)
  have "\<not> prefix n (w # ws @ R)" using assms(1,2) Cons.prems by (cases n) auto
  with Cons show ?case by (simp add: includes_js_def sublist_Cons_right)
qed

lemma toLowerCase_append: "toLowerCase (a @ b) = toLowerCase a @ toLowerCase b"
  by (simp add: toLowerCase_def)

lemma toLowerCase_spaces: "\<forall>c\<in>set ws. isWhiteSpace c \<Longrightarrow> toLowerCase ws = ws"
  by (induction ws) (simp_all add: toLowerCase_def whiteSpace_plain)

lemma includes_insert:
  assumes "n \<noteq> []" "\<forall>c\<in>set n. isAsciiLower c" "\<forall>c\<in>set ws. isWhiteSpace c"
  shows "includes_js (toLowerCase (xs @ ws @ TSUKI # post)) n
       = includes_js (toLowerCase (xs @ TSUKI # post)) n"
proof -
  have low: "toLowerCase (xs @ ws @ TSUKI # post)
      = toLowerCase xs @ (ws @ [TSUKI]) @ toLowerCase post"
    "toLowerCase (xs @ TSUKI # post) = toLowerCase xs @ TSUKI # toLowerCase post"
    using toLowerCase_spaces [OF assms(3)]
    by (simp_all add: toLowerCase_append) (simp_all add: toLowerCase_def TSUKI_plain)
  have "includes_js (toLowerCase xs @ TSUKI # toLowerCase post) n
      \<longleftrightarrow> includes_js (toLowerCase xs) n \<or> includes_js (toLowerCase post) n"
    by (rule includes_cut [OF assms(1,2)]) (simp add: TSUKI_plain)
  moreover have "includes_js (toLowerCase xs @ (ws @ [TSUKI]) @ toLowerCase post) n
      \<longleftrightarrow> includes_js (toLowerCase xs) n \<or> includes_js (toLowerCase post) n"
  proof (cases ws)
    case Nil
    then show ?thesis using includes_cut [OF assms(1,2), of TSUKI] by (simp add: TSUKI_plain)
  next
    case (Cons w ws')
    have "includes_js ((ws' @ [TSUKI]) @ toLowerCase post) n = includes_js (toLowerCase post) n"
      by (rule includes_skip [OF assms(1,2)]) (use assms(3) Cons in \<open>auto simp: TSUKI_plain whiteSpace_plain\<close>)
    moreover have "\<not> isAsciiLower w" using assms(3) Cons by (simp add: whiteSpace_plain)
    ultimately show ?thesis
      using Cons includes_cut [OF assms(1,2), of w "toLowerCase xs" "ws' @ TSUKI # toLowerCase post"]
      by simp
  qed
  ultimately show ?thesis using low by simp
qed

lemma lookupMonthName_cong:
  "\<forall>e\<in>set t. includes_js l (fst e) = includes_js l' (fst e) \<Longrightarrow>
   lookupMonthName t l = lookupMonthName t l'"
  by (induction t l rule: lookupMonthName.induct) auto

lemma monthNames_lower: "e \<in> set monthNames \<Longrightarrow> fst e \<noteq> [] \<and> (\<forall>c\<in>set (fst e). isAsciiLower c)"
  by (auto simp: monthNames_def utf16_def isAsciiLower_def)

lemma detect_insert:
  assumes "\<forall>c\<in>set ws. isWhiteSpace c"
  shows "detectMonthFromFilename (xs @ ws @ TSUKI # post) = detectMonthFromFilename (xs @ TSUKI # post)"
proof -
  have "pattern3 (xs @ ws @ TSUKI # post) = pattern3 (xs @ TSUKI # post)"
    unfolding pattern3_def
    by (rule lookupMonthName_cong) (use monthNames_lower includes_insert [OF _ _ assms] in blast)
  moreover have "pattern1 (xs @ ws @ TSUKI # post) = pattern1 (xs @ TSUKI # post)"
    by (simp add: pattern1_def matchMonthPattern_insert [OF assms])
  moreover have "pattern2 (xs @ ws @ TSUKI # post) = pattern2 (xs @ TSUKI # post)"
    by (simp add: pattern2_def matchDelimitedPattern_insert [OF assms])
  ultimately show ?thesis
    by (simp only: detectMonthFromFilename_def)
qed

subsection \<open>Range of the result\<close>

lemma detect_range: "detectMonthFromFilename f = Some m \<Longrightarrow> 1 \<le> m \<and> m \<le> 12"
proof -
  assume "detectMonthFromFilename f = Some m"
  then have "pattern1 f = Some m \<or> pattern2 f = Some m \<or> pattern3 f = Some m"
    by (auto simp: detectMonthFromFilename_def split: option.splits)
  then show ?thesis
    using pattern1_range pattern2_range pattern3_range by blast
qed

lemma invoiceOffset_reject: "n < 1 \<or> 13 < n \<Longrightarrow> invoiceOffset (Some n) = None"
  by (auto simp: invoiceOffset_def Let_def)

subsection \<open>The matchers find what the specification describes\<close>

lemma spacesThenMonth_split:
  assumes "spacesThenMonth s"
  shows "\<exists>ws post. s = ws @ TSUKI # post \<and> (\<forall>c\<in>set ws. isWhiteSpace c)"
proof -
  obtain c r where d: "dropWhile isWhiteSpace s = c # r"
    using assms by (cases "dropWhile isWhiteSpace s") (simp_all add: spacesThenMonth_def)
  then have "c = TSUKI" using assms by (simp add: spacesThenMonth_def)
  then have "takeWhile isWhiteSpace s @ TSUKI # r = s"
    using d takeWhile_dropWhile_id [of isWhiteSpace s] by simp
  then have e: "s = takeWhile isWhiteSpace s @ TSUKI # r" by (rule sym)
  have w: "\<forall>c\<in>set (takeWhile isWhiteSpace s). isWhiteSpace c"
    by (auto dest: set_takeWhileD)
  show ?thesis
  proof (intro exI conjI)
    show "s = takeWhile isWhiteSpace s @ TSUKI # r" by (rule e)
    show "\<forall>c\<in>set (takeWhile isWhiteSpace s). isWhiteSpace c" by (rule w)
  qed
qed

lemma monthPatternAt_Some:
  assumes "monthPatternAt s = Some g"
  shows "hasDigitsBeforeMonth s"
proof -
  obtain d1 d2 rest where s: "s = d1 # d2 # rest"
    using assms by (cases s rule: monthPatternAt.cases) simp_all
  show ?thesis
  proof (cases "isMonthDigit d2 \<and> spacesThenMonth rest")
    case True
    then obtain ws post where "rest = ws @ TSUKI # post" "\<forall>c\<in>set ws. isWhiteSpace c"
      using spacesThenMonth_split by blast
    then have "s = [d1] @ d2 # ws @ TSUKI # post \<and> isMonthDigit d2 \<and> (\<forall>c\<in>set ws. isWhiteSpace c)"
      using s True by simp
    then show ?thesis unfolding hasDigitsBeforeMonth_def by blast
  next
    case False
    then have "isMonthDigit d1" "spacesThenMonth (d2 # rest)"
      using assms s by (auto split: if_splits)
    then obtain ws post where "d2 # rest = ws @ TSUKI # post" "\<forall>c\<in>set ws. isWhiteSpace c"
      using spacesThenMonth_split by blast
    then have "s = [] @ d1 # ws @ TSUKI # post \<and> isMonthDigit d1 \<and> (\<forall>c\<in>set ws. isWhiteSpace c)"
      using s \<open>isMonthDigit d1\<close> by simp
    then show ?thesis unfolding hasDigitsBeforeMonth_def by blast
  qed
qed

lemma hasDigitsBeforeMonth_Cons:
  assumes "hasDigitsBeforeMonth s"
  shows "hasDigitsBeforeMonth (c # s)"
proof -
  obtain pre d ws post where
    "s = pre @ d # ws @ TSUKI # post" "isMonthDigit d" "\<forall>c\<in>set ws. isWhiteSpace c"
    using assms unfolding hasDigitsBeforeMonth_def by blast
  then have "c # s = (c # pre) @ d # ws @ TSUKI # post \<and> isMonthDigit d
      \<and> (\<forall>c\<in>set ws. isWhiteSpace c)"
    by simp
  then show ?thesis unfolding hasDigitsBeforeMonth_def by blast
qed

lemma matchMonthPattern_Some: "matchMonthPattern s = Some g \<Longrightarrow> hasDigitsBeforeMonth s"
proof (induction s)
  case Nil
  then show ?case by simp
next
  case (Cons c cs)
  show ?case
  proof (cases "monthPatternAt (c # cs)")
    case None
    with Cons show ?thesis by (simp add: hasDigitsBeforeMonth_Cons)
  next
    case (Some h)
    then show ?thesis by (rule monthPatternAt_Some)
  qed
qed

lemma matchMonthPattern_iff: "matchMonthPattern s \<noteq> None \<longleftrightarrow> hasDigitsBeforeMonth s"
proof
  assume "matchMonthPattern s \<noteq> None"
  then show "hasDigitsBeforeMonth s" using matchMonthPattern_Some by blast
next
  assume "hasDigitsBeforeMonth s"
  then obtain pre d ws post where
    "s = pre @ d # ws @ TSUKI # post" "isMonthDigit d" "\<forall>c\<in>set ws. isWhiteSpace c"
    unfolding hasDigitsBeforeMonth_def by blast
  then show "matchMonthPattern s \<noteq> None"
    using matchMonthPattern_found [of "d # ws @ TSUKI # post" pre]
      monthPatternAt_one_digit [of d ws post] by simp
qed

lemma delimitedPatternAt_Some:
  "delimitedPatternAt s = Some g \<Longrightarrow>
   \<exists>a b c d post. s = a # b # c # d # post \<and> isLeadDelimiter a \<and> isAsciiDigit b
      \<and> isAsciiDigit c \<and> isTrailDelimiter d \<and> g = [b, c]"
  by (cases s rule: delimitedPatternAt.cases) (auto split: if_splits)

lemma hasDelimitedToken_Cons:
  assumes "hasDelimitedToken s"
  shows "hasDelimitedToken (x # s)"
proof -
  obtain pre a b c d post where
    "s = pre @ a # b # c # d # post" "isLeadDelimiter a" "isAsciiDigit b" "isAsciiDigit c"
    "isTrailDelimiter d"
    using assms unfolding hasDelimitedToken_def by blast
  then have "x # s = (x # pre) @ a # b # c # d # post \<and> isLeadDelimiter a \<and> isAsciiDigit b
      \<and> isAsciiDigit c \<and> isTrailDelimiter d"
    by simp
  then show ?thesis unfolding hasDelimitedToken_def by blast
qed

lemma matchDelimitedPattern_Some: "matchDelimitedPattern s = Some g \<Longrightarrow> hasDelimitedToken s"
proof (induction s)
  case Nil
  then show ?case by simp
next
  case (Cons x xs)
  show ?case
  proof (cases "delimitedPatternAt (x # xs)")
    case None
    with Cons show ?thesis by (simp add: hasDelimitedToken_Cons)
  next
    case (Some h)
    then obtain a b c d post where "x # xs = [] @ a # b # c # d # post" "isLeadDelimiter a"
      "isAsciiDigit b" "isAsciiDigit c" "isTrailDelimiter d"
      using delimitedPatternAt_Some by fastforce
    then show ?thesis unfolding hasDelimitedToken_def by blast
  qed
qed

lemma matchDelimitedPattern_found:
  "delimitedPatternAt s \<noteq> None \<Longrightarrow> matchDelimitedPattern (pre @ s) \<noteq> None"
proof (induction pre)
  case Nil
  then show ?case by (cases s) (auto split: option.splits)
next
  case (Cons a pre)
  then show ?case by (auto split: option.splits)
qed

lemma matchDelimitedPattern_iff: "matchDelimitedPattern s \<noteq> None \<longleftrightarrow> hasDelimitedToken s"
proof
  assume "matchDelimitedPattern s \<noteq> None"
  then show "hasDelimitedToken s" using matchDelimitedPattern_Some by blast
next
  assume "hasDelimitedToken s"
  then obtain pre a b c d post where
    "s = pre @ a # b # c # d # post" "isLeadDelimiter a" "isAsciiDigit b" "isAsciiDigit c"
    "isTrailDelimiter d"
    unfolding hasDelimitedToken_def by blast
  then show "matchDelimitedPattern s \<noteq> None"
    using matchDelimitedPattern_found [of "a # b # c # d # post" pre] by simp
qed

lemma pattern3_iff: "pattern3 s \<noteq> None \<longleftrightarrow> hasMonthName s"
  by (simp add: pattern3_def hasMonthName_def lookupMonthName_None)

subsection \<open>The list of uploaded files\<close>

lemma newEntry_selected:
  "selectedMonth (newEntry f)
     = (case detectMonthFromFilename (name f) of None \<Rightarrow> Some 1 | Some m \<Rightarrow> Some m)"
proof (cases "detectMonthFromFilename (name f)")
  case None
  then show ?thesis by (simp add: newEntry_def Let_def)
next
  case (Some m)
  then have "m \<noteq> 0" using detect_range [of "name f" m] by simp
  with Some show ?thesis by (simp add: newEntry_def Let_def)
qed

lemma newEntry_inRange: "monthInRange (newEntry f)"
proof (cases "detectMonthFromFilename (name f)")
  case None
  then show ?thesis by (simp add: monthInRange_def newEntry_selected)
next
  case (Some m)
  then show ?thesis
    using detect_range [of "name f" m] by (simp add: monthInRange_def newEntry_selected)
qed

lemma addFiles_inRange:
  "\<forall>u\<in>set s. monthInRange u \<Longrightarrow> \<forall>u\<in>set (addFiles files s). monthInRange u"
  by (auto simp: addFiles_def newEntry_inRange)

lemma removeFile_subset: "set (removeFile index s) \<subseteq> set s"
proof -
  have "set (take a s @ drop b s) \<subseteq> set s" for a b
    using set_take_subset [of a s] set_drop_subset [of b s] by auto
  then show ?thesis by (simp add: removeFile_def Let_def)
qed

lemma removeFile_inRange:
  "\<forall>u\<in>set s. monthInRange u \<Longrightarrow> \<forall>u\<in>set (removeFile index s). monthInRange u"
  using removeFile_subset by blast

lemma monthOptionValues_parse:
  assumes "month \<in> set monthOptionValues"
  shows "\<exists>m. parseInt month = Some m \<and> 1 \<le> m \<and> m \<le> 12"
proof -
  have "list_all (\<lambda>v. case parseInt v of None \<Rightarrow> False | Some m \<Rightarrow> 1 \<le> m \<and> m \<le> 12)
      monthOptionValues"
    by code_simp
  then have "case parseInt month of None \<Rightarrow> False | Some m \<Rightarrow> 1 \<le> m \<and> m \<le> 12"
    using assms by (simp add: list_all_iff)
  then show ?thesis by (cases "parseInt month") simp_all
qed

lemma updateFileMonth_inRange:
  assumes "month \<in> set monthOptionValues" "updateFileMonth index month s = Inr s'"
    and "\<forall>u\<in>set s. monthInRange u"
  shows "\<forall>u\<in>set s'. monthInRange u"
proof -
  obtain m where m: "parseInt month = Some m" "1 \<le> m" "m \<le> 12"
    using monthOptionValues_parse [OF assms(1)] by blast
  have s': "s' = s[nat index := (s ! nat index)\<lparr> selectedMonth := parseInt month \<rparr>]"
    using assms(2) by (simp add: updateFileMonth_def split: if_splits)
  have "monthInRange ((s ! nat index)\<lparr> selectedMonth := parseInt month \<rparr>)"
    using m by (simp add: monthInRange_def)
  then show ?thesis
    using assms(3) s' set_update_subset_insert [of s "nat index"] by auto
qed

lemma updateFileMonth_result:
  assumes "updateFileMonth index month s = Inr s'"
  shows "0 \<le> index \<and> index < int (length s)
    \<and> map selectedMonth s' = (map selectedMonth s)[nat index := parseInt month]"
proof -
  have r: "0 \<le> index \<and> index < int (length s)"
    using assms by (simp add: updateFileMonth_def split: if_splits)
  then have "s' = s[nat index := (s ! nat index)\<lparr> selectedMonth := parseInt month \<rparr>]"
    using assms by (simp add: updateFileMonth_def)
  then have "map selectedMonth s' = (map selectedMonth s)[nat index := parseInt month]"
    by (simp add: map_update)
  with r show ?thesis by simp
qed

lemma listStep_inRange:
  assumes "fromDropdown e" "\<forall>u\<in>set s. monthInRange u"
  shows "\<forall>u\<in>set (listStep s e). monthInRange u"
proof (cases e)
  case (AddFiles files)
  then show ?thesis using assms addFiles_inRange by simp
next
  case (RemoveFile index)
  then show ?thesis using assms removeFile_inRange by simp
next
  case (UpdateFileMonth index month)
  show ?thesis
  proof (cases "updateFileMonth index month s")
    case (Inl err)
    then show ?thesis using assms UpdateFileMonth by simp
  next
    case (Inr s')
    then show ?thesis
      using assms UpdateFileMonth updateFileMonth_inRange [of month index s s'] by simp
  qed
next
  case HandleReset
  then show ?thesis by (simp add: handleReset_def)
qed

lemma foldl_listStep_inRange:
  "\<forall>e\<in>set events. fromDropdown e \<Longrightarrow> \<forall>u\<in>set s. monthInRange u \<Longrightarrow>
   \<forall>u\<in>set (foldl listStep s events). monthInRange u"
proof (induction events arbitrary: s)
  case Nil
  then show ?case by simp
next
  case (Cons e events)
  have "\<forall>u\<in>set (listStep s e). monthInRange u"
    using Cons.prems listStep_inRange [of e s] by simp
  then show ?case using Cons by simp
qed

subsection \<open>Rows of the result table\<close>

lemma renderItem_failure:
  "failureStatus item \<Longrightarrow> renderItem ufs tbody item = tbody @ [Row NoMonth ErrorText Failed]"
  by (simp add: renderItem_def failureStatus_def addErrorRow_def Let_def)

lemma addResultRow_extends: "\<exists>rows. addResultRow tbody r sel = tbody @ rows"
  by (simp add: addResultRow_def Let_def)

lemma renderItem_extends: "\<exists>rows. renderItem ufs tbody item = tbody @ rows"
  using addResultRow_extends by (simp add: renderItem_def addErrorRow_def Let_def)

lemma renderItem_errorRows:
  "errorRows tbody + (if failureStatus item then 1 else 0) \<le> errorRows (renderItem ufs tbody item)"
proof (cases "failureStatus item")
  case True
  then show ?thesis by (simp add: renderItem_failure errorRows_def)
next
  case False
  obtain rows where "renderItem ufs tbody item = tbody @ rows"
    using renderItem_extends by blast
  with False show ?thesis by (simp add: errorRows_def)
qed

lemma render_errorRows:
  "errorRows tbody + length (filter failureStatus items)
     \<le> errorRows (foldl (renderItem ufs) tbody items)"
proof (induction items arbitrary: tbody)
  case Nil
  then show ?case by simp
next
  case (Cons item items)
  have "errorRows tbody + (if failureStatus item then 1 else 0) + length (filter failureStatus items)
      \<le> errorRows (renderItem ufs tbody item) + length (filter failureStatus items)"
    using renderItem_errorRows [of tbody item ufs] by simp
  also have "\<dots> \<le> errorRows (foldl (renderItem ufs) (renderItem ufs tbody item) items)"
    by (rule Cons.IH)
  finally show ?case by (cases "failureStatus item") simp_all
qed

section \<open>Properties of the specification\<close>

text \<open>
  C1, as the script has it. The match of pattern 1 is the leftmost one in the file name.
  Whenever the digits it captures parse (after the full-width digits are made half-width)
  to a numeral NN with 1 \<le> NN \<le> 12, \<open>detectMonthFromFilename\<close> returns NN - 1, and 12
  for NN = 1. The file name of the specification that starts with 12, the month character
  and U+5206 and ends in "_report.pdf" gives 11.
\<close>

theorem month_numeral_leftmost:
  "(matchMonthPattern fname = Some monthStr \<and> parseInt (toHalfWidth monthStr) = Some NN
      \<and> 1 \<le> NN \<and> NN \<le> 12
     \<longrightarrow> detectMonthFromFilename fname = Some (if NN = 1 then 12 else NN - 1))
   \<and> detectMonthFromFilename ([0x31, 0x32, TSUKI, 0x5206] @ utf16 ''_report.pdf'') = Some 11"
proof (intro conjI impI)
  assume "matchMonthPattern fname = Some monthStr \<and> parseInt (toHalfWidth monthStr) = Some NN
      \<and> 1 \<le> NN \<and> NN \<le> 12"
  then show "detectMonthFromFilename fname = Some (if NN = 1 then 12 else NN - 1)"
    by (simp add: detectMonthFromFilename_def pattern1_def invoiceOffset_accept)
next
  show "detectMonthFromFilename ([0x31, 0x32, TSUKI, 0x5206] @ utf16 ''_report.pdf'') = Some 11"
    by code_simp
qed

text \<open>
  The file name of a full-width 1, the month character and ".pdf": the match captures the
  full-width digit, it parses to 1, and the detected month is 12.
\<close>

theorem month_numeral_leftmost_witness:
  "matchMonthPattern ([0xFF11, TSUKI] @ utf16 ''.pdf'') = Some [0xFF11]
   \<and> parseInt (toHalfWidth [0xFF11]) = Some 1 \<and> (1::int) \<le> 1 \<and> (1::int) \<le> 12
   \<and> detectMonthFromFilename ([0xFF11, TSUKI] @ utf16 ''.pdf'') = Some 12"
proof -
  have h1: "matchMonthPattern ([0xFF11, TSUKI] @ utf16 ''.pdf'') = Some [0xFF11]"
    by code_simp
  have h2: "parseInt (toHalfWidth [0xFF11]) = Some 1"
    by code_simp
  show ?thesis
    using month_numeral_leftmost [of "[0xFF11, TSUKI] @ utf16 ''.pdf''" "[0xFF11]" 1] h1 h2
    by simp
qed

text \<open>
  C1 as the specification words it speaks of any occurrence of digits before the month
  character. Write M for the month character. The file name "2M3M.pdf" contains "3M" with
  numeral 3, and the detected month is not 2: the leftmost occurrence "2M" decides, and
  gives 1.
\<close>

theorem month_numeral_any_occurrence_counterexample:
  "includes_js ([0x32, TSUKI, 0x33, TSUKI] @ utf16 ''.pdf'') [0x33, TSUKI]
   \<and> isMonthDigit 0x33
   \<and> parseInt (toHalfWidth [0x33]) = Some 3
   \<and> detectMonthFromFilename ([0x32, TSUKI, 0x33, TSUKI] @ utf16 ''.pdf'') \<noteq> Some (3 - 1)"
  by code_simp

text \<open>
  C2. The specification rejects every numeral outside 1 to 12 and goes on to the next
  pattern. The script subtracts 1 before it tests the range, so the numeral 13 passes the
  test as 12. For the file name 13, month character, ".pdf" patterns 2 and 3 find nothing,
  and null would be the answer of the specification; the script returns 12. For
  "bill_13_.pdf" pattern 2 does the same.
\<close>

theorem numeral_13_accepted:
  "matchMonthPattern ([0x31, 0x33, TSUKI] @ utf16 ''.pdf'') = Some [0x31, 0x33]
   \<and> parseInt (toHalfWidth [0x31, 0x33]) = Some 13
   \<and> pattern2 ([0x31, 0x33, TSUKI] @ utf16 ''.pdf'') = None
   \<and> pattern3 ([0x31, 0x33, TSUKI] @ utf16 ''.pdf'') = None
   \<and> detectMonthFromFilename ([0x31, 0x33, TSUKI] @ utf16 ''.pdf'') = Some 12
   \<and> matchDelimitedPattern (utf16 ''bill_13_.pdf'') = Some (utf16 ''13'')
   \<and> parseInt (utf16 ''13'') = Some 13
   \<and> pattern3 (utf16 ''bill_13_.pdf'') = None
   \<and> detectMonthFromFilename (utf16 ''bill_13_.pdf'') = Some 12"
  by code_simp

text \<open>
  C3, as the script has it. Pattern 2 is tried when pattern 1 has returned nothing, and its
  match is the leftmost run of a delimiter \<open>_\<close> or \<open>-\<close>, two digits, and a delimiter
  \<open>_\<close>, \<open>-\<close> or \<open>.\<close>. Whenever the two digits parse to NN with 1 \<le> NN \<le> 12 the
  detected month is NN - 1, and 12 for NN = 1; with the leftmost token "07" it is 6, and
  "invoice_2025-12.pdf" gives 11.
\<close>

theorem delimited_numeral_leftmost:
  "(pattern1 fname = None \<and> matchDelimitedPattern fname = Some g \<and> parseInt g = Some NN
      \<and> 1 \<le> NN \<and> NN \<le> 12
     \<longrightarrow> detectMonthFromFilename fname = Some (if NN = 1 then 12 else NN - 1))
   \<and> (pattern1 fname = None \<and> matchDelimitedPattern fname = Some (utf16 ''07'')
     \<longrightarrow> detectMonthFromFilename fname = Some 6)
   \<and> detectMonthFromFilename (utf16 ''invoice_2025-12.pdf'') = Some 11"
proof (intro conjI impI)
  assume "pattern1 fname = None \<and> matchDelimitedPattern fname = Some g \<and> parseInt g = Some NN
      \<and> 1 \<le> NN \<and> NN \<le> 12"
  then show "detectMonthFromFilename fname = Some (if NN = 1 then 12 else NN - 1)"
    by (simp add: detectMonthFromFilename_def pattern2_def invoiceOffset_accept)
next
  have "parseInt (utf16 ''07'') = Some 7" by code_simp
  moreover assume "pattern1 fname = None \<and> matchDelimitedPattern fname = Some (utf16 ''07'')"
  ultimately show "detectMonthFromFilename fname = Some 6"
    by (simp add: detectMonthFromFilename_def pattern2_def invoiceOffset_accept)
next
  show "detectMonthFromFilename (utf16 ''invoice_2025-12.pdf'') = Some 11"
    by code_simp
qed

text \<open>
  In "scan_07_01_.pdf" pattern 1 finds nothing and the leftmost token is "_07_".
\<close>

theorem delimited_numeral_leftmost_witness:
  "pattern1 (utf16 ''scan_07_01_.pdf'') = None
   \<and> matchDelimitedPattern (utf16 ''scan_07_01_.pdf'') = Some (utf16 ''07'')
   \<and> parseInt (utf16 ''07'') = Some 7 \<and> (1::int) \<le> 7 \<and> (7::int) \<le> 12
   \<and> detectMonthFromFilename (utf16 ''scan_07_01_.pdf'') = Some 6"
proof -
  have h1: "pattern1 (utf16 ''scan_07_01_.pdf'') = None" by code_simp
  have h2: "matchDelimitedPattern (utf16 ''scan_07_01_.pdf'') = Some (utf16 ''07'')" by code_simp
  have h3: "parseInt (utf16 ''07'') = Some 7" by code_simp
  show ?thesis
    using delimited_numeral_leftmost [of "utf16 ''scan_07_01_.pdf''" "utf16 ''07''" 7] h1 h2 h3
    by simp
qed

text \<open>
  C3 as the specification words it speaks of any delimited token in the file name.
  "scan_05_07_.pdf" contains "_07_" and the detected month is not 6: the leftmost token
  "_05_" decides. "scan.07.pdf" contains ".07." and the detected month is not 6 either: a
  full stop does not open a token.
\<close>

theorem delimited_token_anywhere_counterexample:
  "includes_js (utf16 ''scan_05_07_.pdf'') (utf16 ''_07_'')
   \<and> detectMonthFromFilename (utf16 ''scan_05_07_.pdf'') \<noteq> Some 6
   \<and> includes_js (utf16 ''scan.07.pdf'') (utf16 ''.07.'')
   \<and> detectMonthFromFilename (utf16 ''scan.07.pdf'') \<noteq> Some 6"
  by code_simp

text \<open>
  C4, as the script has it. When neither numeric pattern matches, the detected month is
  the month of the first entry of the table, in the order jan, january, feb, february and
  so on to dec, december, whose name occurs in the lower-cased file name; no offset is
  applied. "March_bill.pdf" gives 3.
\<close>

theorem month_name_first_in_table:
  "(matchMonthPattern fname = None \<and> matchDelimitedPattern fname = None
      \<and> i < length monthNames
      \<and> includes_js (toLowerCase fname) (fst (monthNames ! i))
      \<and> (\<forall>j<i. \<not> includes_js (toLowerCase fname) (fst (monthNames ! j)))
     \<longrightarrow> detectMonthFromFilename fname = Some (snd (monthNames ! i)))
   \<and> detectMonthFromFilename (utf16 ''March_bill.pdf'') = Some 3"
proof (intro conjI impI)
  assume a: "matchMonthPattern fname = None \<and> matchDelimitedPattern fname = None
      \<and> i < length monthNames
      \<and> includes_js (toLowerCase fname) (fst (monthNames ! i))
      \<and> (\<forall>j<i. \<not> includes_js (toLowerCase fname) (fst (monthNames ! j)))"
  then have "pattern3 fname = Some (snd (monthNames ! i))"
    unfolding pattern3_def by (intro lookupMonthName_first) auto
  with a show "detectMonthFromFilename fname = Some (snd (monthNames ! i))"
    by (simp add: detectMonthFromFilename_def pattern1_def pattern2_def)
next
  show "detectMonthFromFilename (utf16 ''March_bill.pdf'') = Some 3"
    by code_simp
qed

text \<open>
  "Bill-December.pdf": entry 21 of the table is dec, and none of the 21 entries before it
  occurs in the file name.
\<close>

theorem month_name_first_in_table_witness:
  "matchMonthPattern (utf16 ''Bill-December.pdf'') = None
   \<and> matchDelimitedPattern (utf16 ''Bill-December.pdf'') = None
   \<and> (21::nat) < length monthNames
   \<and> monthNames ! 21 = (utf16 ''dec'', 12)
   \<and> includes_js (toLowerCase (utf16 ''Bill-December.pdf'')) (utf16 ''dec'')
   \<and> list_all (\<lambda>e. \<not> includes_js (toLowerCase (utf16 ''Bill-December.pdf'')) (fst e)) (take 21 monthNames)
   \<and> detectMonthFromFilename (utf16 ''Bill-December.pdf'') = Some 12"
proof -
  have h1: "matchMonthPattern (utf16 ''Bill-December.pdf'') = None" by code_simp
  have h2: "matchDelimitedPattern (utf16 ''Bill-December.pdf'') = None" by code_simp
  have h3: "(21::nat) < length monthNames" by code_simp
  have h4: "monthNames ! 21 = (utf16 ''dec'', 12)" by code_simp
  have h5: "includes_js (toLowerCase (utf16 ''Bill-December.pdf'')) (utf16 ''dec'')" by code_simp
  have h6: "list_all (\<lambda>e. \<not> includes_js (toLowerCase (utf16 ''Bill-December.pdf'')) (fst e)) (take 21 monthNames)"
    by code_simp
  have h7: "\<forall>j<21. \<not> includes_js (toLowerCase (utf16 ''Bill-December.pdf'')) (fst (monthNames ! j))"
  proof (intro allI impI)
    fix j :: nat assume "j < 21"
    then have "monthNames ! j \<in> set (take 21 monthNames)"
      using h3 by (metis in_set_conv_nth length_take min.absorb2 nth_take less_imp_le)
    then show "\<not> includes_js (toLowerCase (utf16 ''Bill-December.pdf'')) (fst (monthNames ! j))"
      using h6 by (simp add: list_all_iff)
  qed
  show ?thesis
    using month_name_first_in_table [of "utf16 ''Bill-December.pdf''" 21] h1 h2 h3 h4 h5 h6 h7
    by simp
qed

text \<open>
  C4 as the specification words it promises the month of any name that occurs.
  "dec_jan.pdf" matches no numeric pattern and contains "dec", and the detected month is
  not 12: jan stands before dec in the table.
\<close>

theorem month_name_any_counterexample:
  "matchMonthPattern (utf16 ''dec_jan.pdf'') = None
   \<and> matchDelimitedPattern (utf16 ''dec_jan.pdf'') = None
   \<and> (utf16 ''dec'', 12) \<in> set monthNames
   \<and> includes_js (toLowerCase (utf16 ''dec_jan.pdf'')) (utf16 ''dec'')
   \<and> detectMonthFromFilename (utf16 ''dec_jan.pdf'') \<noteq> Some 12"
  by code_simp

text \<open>
  C5. The three heuristics are tried in a fixed order and the first that yields a value
  decides: a value of pattern 1 is the result whatever patterns 2 and 3 would give, a
  value of pattern 2 is the result when pattern 1 gave none, whatever pattern 3 would
  give, and pattern 3 decides only when both gave none.
\<close>

theorem heuristics_priority:
  "(pattern1 fname = Some m \<longrightarrow> detectMonthFromFilename fname = Some m)
   \<and> (pattern1 fname = None \<and> pattern2 fname = Some m \<longrightarrow> detectMonthFromFilename fname = Some m)
   \<and> (pattern1 fname = None \<and> pattern2 fname = None
        \<longrightarrow> detectMonthFromFilename fname = pattern3 fname)"
  by (simp add: detectMonthFromFilename_def)

text \<open>
  Three file names for which the heuristics disagree: in the first all three yield a
  value, in the second the last two, in the third the last one.
\<close>

theorem heuristics_priority_witness:
  "pattern1 ([0x33, TSUKI] @ utf16 ''_07_jan.pdf'') = Some 2
   \<and> pattern2 ([0x33, TSUKI] @ utf16 ''_07_jan.pdf'') = Some 6
   \<and> pattern3 ([0x33, TSUKI] @ utf16 ''_07_jan.pdf'') = Some 1
   \<and> detectMonthFromFilename ([0x33, TSUKI] @ utf16 ''_07_jan.pdf'') = Some 2
   \<and> pattern1 (utf16 ''_07_jan.pdf'') = None
   \<and> pattern2 (utf16 ''_07_jan.pdf'') = Some 6
   \<and> pattern3 (utf16 ''_07_jan.pdf'') = Some 1
   \<and> detectMonthFromFilename (utf16 ''_07_jan.pdf'') = Some 6
   \<and> pattern1 (utf16 ''jan.pdf'') = None
   \<and> pattern2 (utf16 ''jan.pdf'') = None
   \<and> pattern3 (utf16 ''jan.pdf'') = Some 1
   \<and> detectMonthFromFilename (utf16 ''jan.pdf'') = Some 1"
proof -
  have a: "pattern1 ([0x33, TSUKI] @ utf16 ''_07_jan.pdf'') = Some 2"
    "pattern2 ([0x33, TSUKI] @ utf16 ''_07_jan.pdf'') = Some 6"
    "pattern3 ([0x33, TSUKI] @ utf16 ''_07_jan.pdf'') = Some 1"
    by code_simp+
  have b: "pattern1 (utf16 ''_07_jan.pdf'') = None"
    "pattern2 (utf16 ''_07_jan.pdf'') = Some 6"
    "pattern3 (utf16 ''_07_jan.pdf'') = Some 1"
    by code_simp+
  have c: "pattern1 (utf16 ''jan.pdf'') = None"
    "pattern2 (utf16 ''jan.pdf'') = None"
    "pattern3 (utf16 ''jan.pdf'') = Some 1"
    by code_simp+
  show ?thesis
    using heuristics_priority [of "[0x33, TSUKI] @ utf16 ''_07_jan.pdf''" 2]
      heuristics_priority [of "utf16 ''_07_jan.pdf''" 6]
      heuristics_priority [of "utf16 ''jan.pdf''" 1] a b c
    by simp
qed

text \<open>
  C6. A file name with no digits before the month character, no delimited two-digit token
  and no English month name gives null; "readme.pdf" gives null.
\<close>

theorem no_heuristic_gives_null:
  "(\<not> hasDigitsBeforeMonth fname \<and> \<not> hasDelimitedToken fname \<and> \<not> hasMonthName fname
      \<longrightarrow> detectMonthFromFilename fname = None)
   \<and> detectMonthFromFilename (utf16 ''readme.pdf'') = None"
proof (intro conjI impI)
  assume a: "\<not> hasDigitsBeforeMonth fname \<and> \<not> hasDelimitedToken fname \<and> \<not> hasMonthName fname"
  then have "matchMonthPattern fname = None" "matchDelimitedPattern fname = None"
    "pattern3 fname = None"
    using matchMonthPattern_iff matchDelimitedPattern_iff pattern3_iff by blast+
  then show "detectMonthFromFilename fname = None"
    by (simp add: detectMonthFromFilename_def pattern1_def pattern2_def)
next
  show "detectMonthFromFilename (utf16 ''readme.pdf'') = None"
    by code_simp
qed

text \<open>
  "2025 notes.txt" has digits, but none of the three shapes.
\<close>

theorem no_heuristic_gives_null_witness:
  "\<not> hasDigitsBeforeMonth (utf16 ''2025 notes.txt'')
   \<and> \<not> hasDelimitedToken (utf16 ''2025 notes.txt'')
   \<and> \<not> hasMonthName (utf16 ''2025 notes.txt'')
   \<and> detectMonthFromFilename (utf16 ''2025 notes.txt'') = None"
proof -
  have "matchMonthPattern (utf16 ''2025 notes.txt'') = None" by code_simp
  then have h1: "\<not> hasDigitsBeforeMonth (utf16 ''2025 notes.txt'')"
    using matchMonthPattern_iff by blast
  have "matchDelimitedPattern (utf16 ''2025 notes.txt'') = None" by code_simp
  then have h2: "\<not> hasDelimitedToken (utf16 ''2025 notes.txt'')"
    using matchDelimitedPattern_iff by blast
  have "pattern3 (utf16 ''2025 notes.txt'') = None" by code_simp
  then have h3: "\<not> hasMonthName (utf16 ''2025 notes.txt'')"
    using pattern3_iff by blast
  show ?thesis
    using no_heuristic_gives_null [of "utf16 ''2025 notes.txt''"] h1 h2 h3 by simp
qed

text \<open>
  C7. For every string, \<open>detectMonthFromFilename\<close> returns null or an integer from 1 to 12.
\<close>

theorem detected_month_in_range:
  "detectMonthFromFilename fname = None
   \<or> (\<exists>m. detectMonthFromFilename fname = Some m \<and> 1 \<le> m \<and> m \<le> 12)"
proof (cases "detectMonthFromFilename fname")
  case None
  then show ?thesis by simp
next
  case (Some m)
  then have "pattern1 fname = Some m \<or> pattern2 fname = Some m \<or> pattern3 fname = Some m"
    by (auto simp: detectMonthFromFilename_def split: option.splits)
  then have "1 \<le> m \<and> m \<le> 12"
    using pattern1_range pattern2_range pattern3_range by blast
  with Some show ?thesis by simp
qed

text \<open>
  C8. The specification has every item of the response shown as a row, and no failure
  dropped. In the script an item with the status of a finished file or of a file without
  a reading gets its rows from \<open>addResultRow\<close>, which writes nothing when the item has no
  month field and its file name is no longer in the list of uploaded files. First: the
  only file was removed from the list while the request ran, the response has one item
  for it with no fields, and the table stays empty. Second: of three items only the one
  with a failure status gets a row.
\<close>

theorem result_item_without_row:
  "renderResults []
     (Some [\<lparr> filename = utf16 ''a.pdf'', status = STATUS_NO_KWH, fields_js = Some [],
              ocr_text = None, ocr_confidence = None \<rparr>])
   = []
   \<and> renderResults [newEntry \<lparr> name = utf16 ''b.pdf'', content = [] \<rparr>]
     (Some [\<lparr> filename = utf16 ''a.pdf'', status = STATUS_DONE, fields_js = None,
              ocr_text = None, ocr_confidence = None \<rparr>,
            \<lparr> filename = utf16 ''c.pdf'', status = STATUS_NO_KWH,
              fields_js = Some [(utf16 ''ocr_confidence'', utf16 ''0.4'')],
              ocr_text = Some (utf16 ''x''), ocr_confidence = Some (2 / 5) \<rparr>,
            \<lparr> filename = utf16 ''b.pdf'', status = utf16 ''error'', fields_js = None,
              ocr_text = None, ocr_confidence = None \<rparr>])
   = [Row NoMonth ErrorText Failed]"
  by code_simp

text \<open>
  C9. Every entry of the list of uploaded files has a selected month from 1 to 12 after
  every run of handlers on the list, when each update of a month carries the value of one
  of the twelve options. \<open>addFiles\<close> keeps the entries of the list and appends one entry for
  each file, in order, whose detected month is the result of the detection on the file's
  name and whose selected month is the detected month, or 1 when detection gave null. An
  update from the dropdown happens at an index of the list, writes the parsed value there
  and nowhere else, and keeps every selected month from 1 to 12.
\<close>

theorem selectedMonth_always_in_range:
  "((\<forall>e\<in>set events. fromDropdown e)
      \<longrightarrow> (\<forall>u\<in>set (foldl listStep [] events). monthInRange u))
   \<and> map selectedMonth (addFiles files uploaded)
       = map selectedMonth uploaded
         @ map (\<lambda>f. case detectMonthFromFilename (name f) of None \<Rightarrow> Some 1 | Some m \<Rightarrow> Some m)
             files
   \<and> map detectedMonth (addFiles files uploaded)
       = map detectedMonth uploaded @ map (\<lambda>f. detectMonthFromFilename (name f)) files
   \<and> map file_js (addFiles files uploaded) = map file_js uploaded @ files
   \<and> selectedMonth (newEntry f)
       = (case detectMonthFromFilename (name f) of None \<Rightarrow> Some 1 | Some m \<Rightarrow> Some m)
   \<and> detectedMonth (newEntry f) = detectMonthFromFilename (name f)
   \<and> (month \<in> set monthOptionValues \<and> updateFileMonth index month s = Inr s'
        \<and> (\<forall>u\<in>set s. monthInRange u)
      \<longrightarrow> (\<forall>u\<in>set s'. monthInRange u)
          \<and> 0 \<le> index \<and> index < int (length s)
          \<and> map selectedMonth s' = (map selectedMonth s)[nat index := parseInt month])"
proof (intro conjI impI)
  assume "\<forall>e\<in>set events. fromDropdown e"
  then show "\<forall>u\<in>set (foldl listStep [] events). monthInRange u"
    by (rule foldl_listStep_inRange) simp
next
  show "map selectedMonth (addFiles files uploaded)
       = map selectedMonth uploaded
         @ map (\<lambda>f. case detectMonthFromFilename (name f) of None \<Rightarrow> Some 1 | Some m \<Rightarrow> Some m)
             files"
    by (simp add: addFiles_def newEntry_selected)
next
  show "map detectedMonth (addFiles files uploaded)
       = map detectedMonth uploaded @ map (\<lambda>f. detectMonthFromFilename (name f)) files"
    by (simp add: addFiles_def newEntry_def Let_def)
next
  show "map file_js (addFiles files uploaded) = map file_js uploaded @ files"
    by (simp add: addFiles_def newEntry_def Let_def comp_def)
next
  show "selectedMonth (newEntry f)
      = (case detectMonthFromFilename (name f) of None \<Rightarrow> Some 1 | Some m \<Rightarrow> Some m)"
    by (rule newEntry_selected)
next
  show "detectedMonth (newEntry f) = detectMonthFromFilename (name f)"
    by (simp add: newEntry_def Let_def)
next
  assume a: "month \<in> set monthOptionValues \<and> updateFileMonth index month s = Inr s'
        \<and> (\<forall>u\<in>set s. monthInRange u)"
  then show "\<forall>u\<in>set s'. monthInRange u"
    using updateFileMonth_inRange by blast
  show "0 \<le> index" "index < int (length s)"
    "map selectedMonth s' = (map selectedMonth s)[nat index := parseInt month]"
    using a updateFileMonth_result [of index month s s'] by simp_all
qed

text \<open>
  A run of four handlers from the empty list, which ends with the selected months 12 and
  3; two files added to a list of one entry; and one update of a list of one entry.
\<close>

theorem selectedMonth_always_in_range_witness:
  "list_all fromDropdown
     [AddFiles [\<lparr> name = utf16 ''a_03_.pdf'', content = [] \<rparr>,
                \<lparr> name = utf16 ''b.pdf'', content = [] \<rparr>],
      UpdateFileMonth 1 (utf16 ''12''),
      RemoveFile 0,
      AddFiles [\<lparr> name = utf16 ''March.pdf'', content = [] \<rparr>]]
   \<and> map selectedMonth (foldl listStep []
     [AddFiles [\<lparr> name = utf16 ''a_03_.pdf'', content = [] \<rparr>,
                \<lparr> name = utf16 ''b.pdf'', content = [] \<rparr>],
      UpdateFileMonth 1 (utf16 ''12''),
      RemoveFile 0,
      AddFiles [\<lparr> name = utf16 ''March.pdf'', content = [] \<rparr>]]) = [Some 12, Some 3]
   \<and> list_all monthInRange (foldl listStep []
     [AddFiles [\<lparr> name = utf16 ''a_03_.pdf'', content = [] \<rparr>,
                \<lparr> name = utf16 ''b.pdf'', content = [] \<rparr>],
      UpdateFileMonth 1 (utf16 ''12''),
      RemoveFile 0,
      AddFiles [\<lparr> name = utf16 ''March.pdf'', content = [] \<rparr>]])
   \<and> map selectedMonth
         (addFiles [\<lparr> name = utf16 ''a_03_.pdf'', content = [] \<rparr>,
                    \<lparr> name = utf16 ''b.pdf'', content = [] \<rparr>]
            [newEntry \<lparr> name = utf16 ''March.pdf'', content = [] \<rparr>])
       = [Some 3, Some 2, Some 1]
   \<and> map detectedMonth
         (addFiles [\<lparr> name = utf16 ''a_03_.pdf'', content = [] \<rparr>,
                    \<lparr> name = utf16 ''b.pdf'', content = [] \<rparr>]
            [newEntry \<lparr> name = utf16 ''March.pdf'', content = [] \<rparr>])
       = [Some 3, Some 2, None]
   \<and> utf16 ''7'' \<in> set monthOptionValues
   \<and> updateFileMonth 0 (utf16 ''7'') [newEntry \<lparr> name = utf16 ''b.pdf'', content = [] \<rparr>]
       = Inr [(newEntry \<lparr> name = utf16 ''b.pdf'', content = [] \<rparr>)\<lparr> selectedMonth := Some 7 \<rparr>]
   \<and> list_all monthInRange [newEntry \<lparr> name = utf16 ''b.pdf'', content = [] \<rparr>]
   \<and> map selectedMonth [newEntry \<lparr> name = utf16 ''b.pdf'', content = [] \<rparr>] = [Some 1]
   \<and> map selectedMonth
         [(newEntry \<lparr> name = utf16 ''b.pdf'', content = [] \<rparr>)\<lparr> selectedMonth := Some 7 \<rparr>]
       = [Some 7]
   \<and> list_all monthInRange
         [(newEntry \<lparr> name = utf16 ''b.pdf'', content = [] \<rparr>)\<lparr> selectedMonth := Some 7 \<rparr>]"
proof -
  note T = selectedMonth_always_in_range
    [where events = "[AddFiles [\<lparr> name = utf16 ''a_03_.pdf'', content = [] \<rparr>,
                \<lparr> name = utf16 ''b.pdf'', content = [] \<rparr>],
      UpdateFileMonth 1 (utf16 ''12''),
      RemoveFile 0,
      AddFiles [\<lparr> name = utf16 ''March.pdf'', content = [] \<rparr>]]"
     and files = "[\<lparr> name = utf16 ''a_03_.pdf'', content = [] \<rparr>,
                   \<lparr> name = utf16 ''b.pdf'', content = [] \<rparr>]"
     and uploaded = "[newEntry \<lparr> name = utf16 ''March.pdf'', content = [] \<rparr>]"
     and month = "utf16 ''7''" and index = 0
     and s = "[newEntry \<lparr> name = utf16 ''b.pdf'', content = [] \<rparr>]"
     and s' = "[(newEntry \<lparr> name = utf16 ''b.pdf'', content = [] \<rparr>)\<lparr> selectedMonth := Some 7 \<rparr>]"]
  have h1: "\<forall>e\<in>set [AddFiles [\<lparr> name = utf16 ''a_03_.pdf'', content = [] \<rparr>,
                \<lparr> name = utf16 ''b.pdf'', content = [] \<rparr>],
      UpdateFileMonth 1 (utf16 ''12''),
      RemoveFile 0,
      AddFiles [\<lparr> name = utf16 ''March.pdf'', content = [] \<rparr>]]. fromDropdown e"
    by code_simp
  have h2: "utf16 ''7'' \<in> set monthOptionValues"
    by code_simp
  have h3: "updateFileMonth 0 (utf16 ''7'') [newEntry \<lparr> name = utf16 ''b.pdf'', content = [] \<rparr>]
       = Inr [(newEntry \<lparr> name = utf16 ''b.pdf'', content = [] \<rparr>)\<lparr> selectedMonth := Some 7 \<rparr>]"
    by code_simp
  have h4: "\<forall>u\<in>set [newEntry \<lparr> name = utf16 ''b.pdf'', content = [] \<rparr>]. monthInRange u"
    by code_simp
  have e1: "map selectedMonth (foldl listStep []
     [AddFiles [\<lparr> name = utf16 ''a_03_.pdf'', content = [] \<rparr>,
                \<lparr> name = utf16 ''b.pdf'', content = [] \<rparr>],
      UpdateFileMonth 1 (utf16 ''12''),
      RemoveFile 0,
      AddFiles [\<lparr> name = utf16 ''March.pdf'', content = [] \<rparr>]]) = [Some 12, Some 3]"
    by code_simp
  have e2: "map selectedMonth
         (addFiles [\<lparr> name = utf16 ''a_03_.pdf'', content = [] \<rparr>,
                    \<lparr> name = utf16 ''b.pdf'', content = [] \<rparr>]
            [newEntry \<lparr> name = utf16 ''March.pdf'', content = [] \<rparr>])
       = [Some 3, Some 2, Some 1]"
    by code_simp
  have e3: "map detectedMonth
         (addFiles [\<lparr> name = utf16 ''a_03_.pdf'', content = [] \<rparr>,
                    \<lparr> name = utf16 ''b.pdf'', content = [] \<rparr>]
            [newEntry \<lparr> name = utf16 ''March.pdf'', content = [] \<rparr>])
       = [Some 3, Some 2, None]"
    by code_simp
  have e4: "map selectedMonth [newEntry \<lparr> name = utf16 ''b.pdf'', content = [] \<rparr>] = [Some 1]"
    by code_simp
  have e5: "map selectedMonth
         [(newEntry \<lparr> name = utf16 ''b.pdf'', content = [] \<rparr>)\<lparr> selectedMonth := Some 7 \<rparr>]
       = [Some 7]"
    by code_simp
  from T h1 have r1: "\<forall>u\<in>set (foldl listStep []
     [AddFiles [\<lparr> name = utf16 ''a_03_.pdf'', content = [] \<rparr>,
                \<lparr> name = utf16 ''b.pdf'', content = [] \<rparr>],
      UpdateFileMonth 1 (utf16 ''12''),
      RemoveFile 0,
      AddFiles [\<lparr> name = utf16 ''March.pdf'', content = [] \<rparr>]]). monthInRange u"
    by blast
  from T h2 h3 h4 have r2: "\<forall>u\<in>set
     [(newEntry \<lparr> name = utf16 ''b.pdf'', content = [] \<rparr>)\<lparr> selectedMonth := Some 7 \<rparr>].
       monthInRange u"
    by blast
  show ?thesis
    unfolding list_all_iff using h1 h2 h3 h4 e1 e2 e3 e4 e5 r1 r2 by blast
qed

text \<open>
  C10. When one or two digits are separated from the month character by white space
  only, pattern 1 still matches, its match is the one it has with the white space taken
  out, and the detected month is the same as for the file name without the white space.
  The file name 3, space, month character, U+5206, ".pdf" gives 2.
\<close>

theorem spaces_before_month:
  "(ds \<noteq> [] \<and> length ds \<le> 2 \<and> (\<forall>c\<in>set ds. isMonthDigit c) \<and> (\<forall>c\<in>set ws. isWhiteSpace c)
     \<longrightarrow> matchMonthPattern (pre @ ds @ ws @ TSUKI # post) \<noteq> None
       \<and> matchMonthPattern (pre @ ds @ ws @ TSUKI # post) = matchMonthPattern (pre @ ds @ TSUKI # post)
       \<and> detectMonthFromFilename (pre @ ds @ ws @ TSUKI # post)
          = detectMonthFromFilename (pre @ ds @ TSUKI # post))
   \<and> detectMonthFromFilename ([0x33, 0x20, TSUKI, 0x5206] @ utf16 ''.pdf'') = Some 2"
proof (intro conjI impI)
  assume a: "ds \<noteq> [] \<and> length ds \<le> 2 \<and> (\<forall>c\<in>set ds. isMonthDigit c) \<and> (\<forall>c\<in>set ws. isWhiteSpace c)"
  then have ws: "\<forall>c\<in>set ws. isWhiteSpace c" by simp
  have "hasDigitsBeforeMonth (pre @ ds @ ws @ TSUKI # post)"
  proof -
    have "pre @ ds @ ws @ TSUKI # post = (pre @ butlast ds) @ last ds # ws @ TSUKI # post"
      using a by simp
    moreover have "isMonthDigit (last ds)" using a by simp
    ultimately show ?thesis unfolding hasDigitsBeforeMonth_def using ws by blast
  qed
  then show "matchMonthPattern (pre @ ds @ ws @ TSUKI # post) \<noteq> None"
    using matchMonthPattern_iff by blast
  show "matchMonthPattern (pre @ ds @ ws @ TSUKI # post) = matchMonthPattern (pre @ ds @ TSUKI # post)"
    using matchMonthPattern_insert [OF ws, of "pre @ ds" post] by simp
  show "detectMonthFromFilename (pre @ ds @ ws @ TSUKI # post)
      = detectMonthFromFilename (pre @ ds @ TSUKI # post)"
    using detect_insert [OF ws, of "pre @ ds" post] by simp
next
  show "detectMonthFromFilename ([0x33, 0x20, TSUKI, 0x5206] @ utf16 ''.pdf'') = Some 2"
    by code_simp
qed

text \<open>
  The file name "bill " followed by a full-width 1, a 2, a space, an ideographic space,
  the month character and ".pdf".
\<close>

theorem spaces_before_month_witness:
  "[0xFF11, 0x32] \<noteq> ([] :: jsstring) \<and> length [0xFF11, 0x32 :: codeunit] \<le> 2
   \<and> list_all isMonthDigit [0xFF11, 0x32] \<and> list_all isWhiteSpace [0x20, 0x3000]
   \<and> matchMonthPattern (utf16 ''bill '' @ [0xFF11, 0x32] @ [0x20, 0x3000] @ TSUKI # utf16 ''.pdf'')
       = Some [0xFF11, 0x32]
   \<and> detectMonthFromFilename (utf16 ''bill '' @ [0xFF11, 0x32] @ [0x20, 0x3000] @ TSUKI # utf16 ''.pdf'')
       = Some 11
   \<and> detectMonthFromFilename (utf16 ''bill '' @ [0xFF11, 0x32] @ TSUKI # utf16 ''.pdf'') = Some 11"
proof -
  have h1: "\<forall>c\<in>set [0xFF11, 0x32]. isMonthDigit c" by code_simp
  have h2: "\<forall>c\<in>set [0x20, 0x3000]. isWhiteSpace c" by code_simp
  have h3: "matchMonthPattern (utf16 ''bill '' @ [0xFF11, 0x32] @ TSUKI # utf16 ''.pdf'') = Some [0xFF11, 0x32]"
    by code_simp
  have h4: "detectMonthFromFilename (utf16 ''bill '' @ [0xFF11, 0x32] @ TSUKI # utf16 ''.pdf'') = Some 11"
    by code_simp
  show ?thesis
    using spaces_before_month [of "[0xFF11, 0x32]" "[0x20, 0x3000]" "utf16 ''bill ''" "utf16 ''.pdf''"]
      h1 h2 h3 h4
    by (simp add: list_all_iff)
qed

end
